theory Spec2Isabelle
  imports Complex_Main "HOL-Library.Word"
begin

unbundle bit_operations_syntax

section \<open>The cellular automaton of flipboard (class \<open>Automata\<close>)\<close>

text \<open>
  A shallow embedding of the class \<open>Automata\<close>: its constructor, the private method
  \<open>getNeighbors\<close>, and the public methods \<open>update\<close> and \<open>resize\<close>.

  Modelling conventions.
  \<^item> A JavaScript \<open>number\<close> that is used as a size, an index or a ruleset entry is an
    \<open>int\<close>; loop counters that start at 0 are \<open>nat\<close>.
  \<^item> An array is a list. \<open>new Array(n)\<close> throws a RangeError unless \<open>0 \<le> n < 2\<^sup>3\<^sup>2\<close>, as
    the language defines it. Memory is not bounded, and the engine's limit on the number
    of spread arguments is not modelled. \<open>push\<close> appends without a limit: to exceed
    the limit on array length it needs an array that already holds close to \<open>2\<^sup>3\<^sup>2\<close>
    elements.
  \<^item> An exception is a value of type \<open>error\<close>. The constructor returns
    \<open>error + Automata\<close>. A method that mutates \<open>this\<close> returns a pair: the exception
    it ended with, if any, and the object as the call left it.
  \<^item> \<open>Math.random()\<close> is a parameter \<open>rnd\<close>: \<open>rnd k\<close> is the result of the \<open>k\<close>-th
    call. Its results and \<open>density\<close> are values of any type that has a \<open>1\<close>, a
    subtraction and an order. No law of arithmetic is assumed of them, so the
    double-precision operations of the engine are one such type.
\<close>

subsection \<open>Data\<close>

datatype AutomataNeighborhood = Moore | VonNeumann

datatype error = RangeError | TypeError

record Automata =
  ruleset :: "int list"
  neighborhood :: AutomataNeighborhood
  grid :: "bool list list"

subsection \<open>Exceptions as values, and the array primitives the class uses\<close>

definition bind_err :: "error + 'a \<Rightarrow> ('a \<Rightarrow> error + 'b) \<Rightarrow> error + 'b" where
  "bind_err m f = (case m of Inl e \<Rightarrow> Inl e | Inr v \<Rightarrow> f v)"

text \<open>\<open>xs.map(f)\<close> where \<open>f\<close> may throw: the first exception ends the traversal.\<close>

fun map_err :: "('a \<Rightarrow> error + 'b) \<Rightarrow> 'a list \<Rightarrow> error + 'b list" where
  "map_err f [] = Inr []"
| "map_err f (x # xs) =
     bind_err (f x) (\<lambda>y. bind_err (map_err f xs) (\<lambda>ys. Inr (y # ys)))"

text \<open>A \<open>for\<close> loop whose counter runs through the given values and whose body may throw.\<close>

fun for_each :: "nat list \<Rightarrow> (nat \<Rightarrow> 's \<Rightarrow> error + 's) \<Rightarrow> 's \<Rightarrow> error + 's" where
  "for_each [] body s = Inr s"
| "for_each (i # js) body s = bind_err (body i s) (for_each js body)"

text \<open>\<open>new Array(n).fill(v)\<close> for a number \<open>n\<close> that comes from the caller: a length that
  is negative or not below \<open>2\<^sup>3\<^sup>2\<close> is a RangeError.\<close>

definition new_Array_fill :: "int \<Rightarrow> 'a \<Rightarrow> error + 'a list" where
  "new_Array_fill n v =
     (if n < 0 \<or> 2 ^ 32 \<le> n then Inl RangeError else Inr (replicate (nat n) v))"

text \<open>\<open>new Array(xs.length).fill(v)\<close>, where the number is the length of an array that
  exists: the engine keeps every array length below \<open>2\<^sup>3\<^sup>2\<close>, so this call does not
  throw.\<close>

definition new_Array_length_fill :: "nat \<Rightarrow> 'a \<Rightarrow> 'a list" where
  "new_Array_length_fill n v = replicate n v"

text \<open>\<open>this.grid[0].length\<close>: on the empty grid \<open>this.grid[0]\<close> is \<open>undefined\<close> and
  reading its \<open>length\<close> is a TypeError.\<close>

definition grid_0_length :: "bool list list \<Rightarrow> error + nat" where
  "grid_0_length g = (case g of [] \<Rightarrow> Inl TypeError | r # _ \<Rightarrow> Inr (length r))"

text \<open>\<open>g[y][x]\<close> read in a boolean context: a missing row is a TypeError, a missing
  element of an existing row is \<open>undefined\<close>, which is falsy.\<close>

definition read_cell :: "bool list list \<Rightarrow> nat \<Rightarrow> nat \<Rightarrow> error + bool" where
  "read_cell g y x =
     (if y < length g then Inr (x < length (g ! y) \<and> g ! y ! x) else Inl TypeError)"

text \<open>\<open>g[y][x] = v\<close>: a missing row is a TypeError; an index at or past the end of the
  row extends the row (the skipped elements would be holes, which read as falsy: they
  are written as \<open>False\<close>; no call of the class skips an element).\<close>

definition set_cell :: "bool list list \<Rightarrow> nat \<Rightarrow> nat \<Rightarrow> bool \<Rightarrow> error + bool list list" where
  "set_cell g y x v =
     (if y < length g then
        (let row = g ! y in
         Inr (g[y := (if x < length row then row[x := v]
                      else row @ replicate (x - length row) False @ [v])]))
      else Inl TypeError)"

text \<open>The same assignment with indices that may be negative: a negative row index finds
  no row; a negative column index sets a property of the row object and no element.\<close>

definition set_cell_int :: "bool list list \<Rightarrow> int \<Rightarrow> int \<Rightarrow> bool \<Rightarrow> error + bool list list" where
  "set_cell_int g y x v =
     (if y < 0 then Inl TypeError
      else if x < 0 then (if nat y < length g then Inr g else Inl TypeError)
      else set_cell g (nat y) (nat x) v)"

text \<open>\<open>this.ruleset[n] & m\<close>: a missing entry is \<open>undefined\<close>, which \<open>&\<close> converts
  to 0; an entry is converted to a signed 32-bit integer.\<close>

definition ruleset_and :: "int list \<Rightarrow> nat \<Rightarrow> int \<Rightarrow> int" where
  "ruleset_and rs n m =
     (if n < length rs then sint ((word_of_int (rs ! n) :: 32 word) AND word_of_int m) else 0)"

subsection \<open>The constructor\<close>

definition Automata_constructor ::
  "int list \<Rightarrow> AutomataNeighborhood \<Rightarrow> int \<Rightarrow> int \<Rightarrow> bool \<Rightarrow>
     'n::{one, minus, ord} \<Rightarrow> (nat \<Rightarrow> 'n) \<Rightarrow> error + Automata" where
  "Automata_constructor rs nb width height initRand density rnd =
     bind_err (new_Array_fill height (0::nat)) (\<lambda>rows.
     bind_err (map_err (\<lambda>_. new_Array_fill width False) rows) (\<lambda>g0.
     bind_err
       (if initRand then
          for_each [0..<nat height] (\<lambda>y g.
            for_each [0..<nat width] (\<lambda>x g.
              set_cell g y x (rnd (y * nat width + x) > 1 - density)) g) g0
        else set_cell_int g0 (height div 2) (width div 2) True) (\<lambda>g.
     Inr \<lparr>ruleset = rs, neighborhood = nb, grid = g\<rparr>)))"

subsection \<open>getNeighbors\<close>

definition offsets :: "AutomataNeighborhood \<Rightarrow> (int \<times> int) list" where
  "offsets nb =
     [(0, -1), (-1, 0), (1, 0), (0, 1)] @
     (if nb = Moore then [(-1, -1), (1, -1), (-1, 1), (1, 1)] else [])"

text \<open>The condition of the \<open>if\<close> in the loop, with the short-circuit order of \<open>&&\<close>.\<close>

definition neighbor_alive :: "bool list list \<Rightarrow> int \<Rightarrow> int \<Rightarrow> error + bool" where
  "neighbor_alive g nx ny =
     (if nx \<ge> 0 then
        bind_err (grid_0_length g) (\<lambda>w.
          if nx < int w then
            (if ny \<ge> 0 then
               (if ny < int (length g) then read_cell g (nat ny) (nat nx) else Inr False)
             else Inr False)
          else Inr False)
      else Inr False)"

fun count_offsets :: "bool list list \<Rightarrow> int \<Rightarrow> int \<Rightarrow> (int \<times> int) list \<Rightarrow> nat \<Rightarrow> error + nat" where
  "count_offsets g x y [] count = Inr count"
| "count_offsets g x y (offset # rest) count =
     bind_err (neighbor_alive g (x + fst offset) (y + snd offset)) (\<lambda>b.
       count_offsets g x y rest (if b then count + 1 else count))"

definition getNeighbors :: "Automata \<Rightarrow> int \<Rightarrow> int \<Rightarrow> error + nat" where
  "getNeighbors a x y = count_offsets (grid a) x y (offsets (neighborhood a)) 0"

subsection \<open>update\<close>

text \<open>The body of the second pair of loops: the next state of the cell \<open>(x, y)\<close>.\<close>

definition next_cell :: "Automata \<Rightarrow> nat \<Rightarrow> nat \<Rightarrow> error + bool" where
  "next_cell a x y =
     bind_err (getNeighbors a (int x) (int y)) (\<lambda>neighbors.
     bind_err (read_cell (grid a) y x) (\<lambda>alive.
       Inr (if alive then ruleset_and (ruleset a) neighbors 1 = 1
            else ruleset_and (ruleset a) neighbors 2 = 2)))"

text \<open>The new grid: allocated, cleared, then filled. Both pairs of loops read their
  bounds from \<open>this.grid\<close>, the inner bound only once a row index has passed the outer
  test.\<close>

definition update_newGrid :: "Automata \<Rightarrow> error + bool list list" where
  "update_newGrid a =
     bind_err (Inr (new_Array_length_fill (length (grid a)) (0::nat))) (\<lambda>rows.
     bind_err (map_err (\<lambda>_. bind_err (grid_0_length (grid a)) (\<lambda>w.
                               Inr (new_Array_length_fill w False))) rows) (\<lambda>newGrid.
     bind_err (for_each [0..<length (grid a)] (\<lambda>y ng.
                 bind_err (grid_0_length (grid a)) (\<lambda>w.
                   for_each [0..<w] (\<lambda>x ng. set_cell ng y x False) ng)) newGrid) (\<lambda>newGrid.
     for_each [0..<length (grid a)] (\<lambda>y ng.
       bind_err (grid_0_length (grid a)) (\<lambda>w.
         for_each [0..<w] (\<lambda>x ng.
           bind_err (next_cell a x y) (\<lambda>v. set_cell ng y x v)) ng)) newGrid)))"

definition update :: "Automata \<Rightarrow> error option \<times> Automata" where
  "update a =
     (case update_newGrid a of
        Inl e \<Rightarrow> (Some e, a)
      | Inr newGrid \<Rightarrow> (None, a\<lparr>grid := newGrid\<rparr>))"

subsection \<open>resize\<close>

text \<open>The loop that widens the rows in place, row by row: the number of cells to append
  is computed from the row's own length, and \<open>new Array\<close> of a negative number throws,
  leaving the rows before it widened.\<close>

fun widen_rows :: "int \<Rightarrow> bool list list \<Rightarrow> error option \<times> bool list list" where
  "widen_rows width [] = (None, [])"
| "widen_rows width (row # rows) =
     (case new_Array_fill (width - int (length row)) False of
        Inl e \<Rightarrow> (Some e, row # rows)
      | Inr cells \<Rightarrow>
          (case widen_rows width rows of (e, rows') \<Rightarrow> (e, (row @ cells) # rows')))"

text \<open>The loop that appends rows: its bound \<open>height - this.grid.length\<close> is read again
  before every iteration, after the previous \<open>push\<close>.\<close>

function grow_rows :: "int \<Rightarrow> int \<Rightarrow> int \<Rightarrow> bool list list \<Rightarrow> error option \<times> bool list list" where
  "grow_rows width height i g =
     (if i < height - int (length g) then
        (case new_Array_fill width False of
           Inl e \<Rightarrow> (Some e, g)
         | Inr row \<Rightarrow> grow_rows width height (i + 1) (g @ [row]))
      else (None, g))"
  by pat_completeness auto
termination
  by (relation "measure (\<lambda>(width, height, i, g). nat (height - int (length g) - i))") auto

definition resize :: "int \<Rightarrow> int \<Rightarrow> Automata \<Rightarrow> error option \<times> Automata" where
  "resize width height a =
     (if width < 1 \<or> height < 1 then (None, a)
      else
        (case grid_0_length (grid a) of
           Inl e \<Rightarrow> (Some e, a)
         | Inr w0 \<Rightarrow>
             if width = int w0 \<and> height = int (length (grid a)) then (None, a)
             else
               (case (if width < int w0 then (None, map (take (nat width)) (grid a))
                      else if width > int w0 then widen_rows width (grid a)
                      else (None, grid a)) of
                  (Some e, g1) \<Rightarrow> (Some e, a\<lparr>grid := g1\<rparr>)
                | (None, g1) \<Rightarrow>
                    (case (if height < int (length g1) then (None, take (nat height) g1)
                           else if height > int (length g1) then grow_rows width height 0 g1
                           else (None, g1)) of
                       (e, g2) \<Rightarrow> (e, a\<lparr>grid := g2\<rparr>)))))"

subsection \<open>Closed forms of the loops\<close>

text \<open>The functions below are not part of the class. They say without exceptions and
  without loops what \<open>getNeighbors\<close> and \<open>update\<close> compute; the lemmas of the next
  section prove that the model of the code agrees with them.\<close>

definition grid_width :: "bool list list \<Rightarrow> nat" where
  "grid_width g = (case g of [] \<Rightarrow> 0 | r # _ \<Rightarrow> length r)"

definition alive_at :: "bool list list \<Rightarrow> int \<Rightarrow> int \<Rightarrow> bool" where
  "alive_at g nx ny \<longleftrightarrow>
     0 \<le> nx \<and> nx < int (grid_width g) \<and> 0 \<le> ny \<and> ny < int (length g) \<and>
     nat nx < length (g ! nat ny) \<and> g ! nat ny ! nat nx"

definition live_neighbors :: "Automata \<Rightarrow> int \<Rightarrow> int \<Rightarrow> nat" where
  "live_neighbors a x y =
     length (filter (\<lambda>offset. alive_at (grid a) (x + fst offset) (y + snd offset))
               (offsets (neighborhood a)))"

definition next_state :: "Automata \<Rightarrow> nat \<Rightarrow> nat \<Rightarrow> bool" where
  "next_state a x y =
     (if x < length (grid a ! y) \<and> grid a ! y ! x
      then ruleset_and (ruleset a) (live_neighbors a (int x) (int y)) 1 = 1
      else ruleset_and (ruleset a) (live_neighbors a (int x) (int y)) 2 = 2)"

text \<open>The invariant of the data model: every row of the grid has the same length.\<close>

definition rectangular :: "bool list list \<Rightarrow> bool" where
  "rectangular g \<longleftrightarrow> (\<forall>r\<in>set g. \<forall>r'\<in>set g. length r = length r')"

section \<open>Properties\<close>

declare grow_rows.simps [simp del]

subsection \<open>Ruleset flags, exceptions and loops\<close>

lemma word_and_exp: "(w :: 32 word) AND 2 ^ n = (if bit w n then 2 ^ n else 0)"
  by (rule bit_eqI) (auto simp: bit_simps)

lemma flag_1: "sint ((word_of_int r :: 32 word) AND 1) = 1 \<longleftrightarrow> bit r 0"
  using word_and_exp [of "word_of_int r" 0] by (simp add: bit_word_of_int_iff)

lemma flag_2: "sint ((word_of_int r :: 32 word) AND 2) = 2 \<longleftrightarrow> bit r (Suc 0)"
  using word_and_exp [of "word_of_int r" 1] by (simp add: bit_word_of_int_iff)

lemma ruleset_and_1: "ruleset_and rs n 1 = 1 \<longleftrightarrow> n < length rs \<and> bit (rs ! n) 0"
  by (simp add: ruleset_and_def flag_1)

lemma ruleset_and_2: "ruleset_and rs n 2 = 2 \<longleftrightarrow> n < length rs \<and> bit (rs ! n) (Suc 0)"
  by (simp add: ruleset_and_def flag_2)

lemma bind_err_Inr [simp]: "bind_err (Inr v) f = f v"
  by (simp add: bind_err_def)

lemma bind_err_Inl [simp]: "bind_err (Inl e) f = Inl e"
  by (simp add: bind_err_def)

lemma grid_0_length_nonempty: "g \<noteq> [] \<Longrightarrow> grid_0_length g = Inr (grid_width g)"
  by (cases g) (simp_all add: grid_0_length_def grid_width_def)

lemma neighbor_alive_pure:
  "g \<noteq> [] \<Longrightarrow> neighbor_alive g nx ny = Inr (alive_at g nx ny)"
  by (auto simp: neighbor_alive_def alive_at_def grid_0_length_nonempty read_cell_def)

lemma count_offsets_pure:
  "g \<noteq> [] \<Longrightarrow>
   count_offsets g x y os c =
     Inr (c + length (filter (\<lambda>offset. alive_at g (x + fst offset) (y + snd offset)) os))"
  by (induction os arbitrary: c) (simp_all add: neighbor_alive_pure)

lemma getNeighbors_pure: "grid a \<noteq> [] \<Longrightarrow> getNeighbors a x y = Inr (live_neighbors a x y)"
  by (simp add: getNeighbors_def live_neighbors_def count_offsets_pure)

lemma next_cell_pure:
  assumes "y < length (grid a)"
  shows "next_cell a x y = Inr (next_state a x y)"
proof -
  from assms have "grid a \<noteq> []" by auto
  then show ?thesis
    using assms by (simp add: next_cell_def next_state_def getNeighbors_pure read_cell_def)
qed

lemma update_drop_0: "k < length xs \<Longrightarrow> (drop k xs)[0 := v] = v # drop (Suc k) xs"
  by (simp add: Cons_nth_drop_Suc [symmetric])

lemma for_each_append:
  "for_each (xs @ ys) body s = bind_err (for_each xs body s) (for_each ys body)"
  by (induction xs arbitrary: s) (simp_all add: bind_err_def split: sum.splits)

lemma for_each_snoc:
  "for_each [0..<Suc k] body s = bind_err (for_each [0..<k] body s) (body k)"
proof -
  have "for_each [k] body = body k"
    by (rule ext) (simp add: bind_err_def split: sum.splits)
  then show ?thesis
    by (simp add: for_each_append)
qed

lemma map_err_const: "map_err (\<lambda>_. Inr r) xs = Inr (map (\<lambda>_. r) xs)"
  by (induction xs) simp_all

lemma for_each_row:
  assumes "\<And>x ng. x < k \<Longrightarrow> body x ng = set_cell ng y x (f x)"
    and "y < length ng" and "k \<le> length (ng ! y)"
  shows "for_each [0..<k] body ng = Inr (ng[y := map f [0..<k] @ drop k (ng ! y)])"
  using assms
proof (induction k)
  case 0
  then show ?case by simp
next
  case (Suc k)
  let ?ng = "ng[y := map f [0..<k] @ drop k (ng ! y)]"
  have ih: "for_each [0..<k] body ng = Inr ?ng"
    using Suc by simp
  have k: "k < length (ng ! y)" using Suc.prems by simp
  have "body k ?ng = set_cell ?ng y k (f k)"
    using Suc.prems by simp
  also have "\<dots> = Inr (?ng[y := (map f [0..<k] @ drop k (ng ! y))[k := f k]])"
    using Suc.prems by (simp add: set_cell_def)
  also have "(map f [0..<k] @ drop k (ng ! y))[k := f k]
               = map f [0..<Suc k] @ drop (Suc k) (ng ! y)"
    using k by (simp add: list_update_append update_drop_0)
  finally show ?case
    using ih by (simp add: for_each_snoc del: upt_Suc)
qed

lemma for_each_rows:
  assumes "\<And>y ng. y < k \<Longrightarrow> y < length ng \<Longrightarrow> length (ng ! y) = w \<Longrightarrow>
             body y ng = Inr (ng[y := F y])"
    and "k \<le> length ng0" and "\<And>y. y < k \<Longrightarrow> length (ng0 ! y) = w"
  shows "for_each [0..<k] body ng0 = Inr (map F [0..<k] @ drop k ng0)"
  using assms
proof (induction k)
  case 0
  then show ?case by simp
next
  case (Suc k)
  let ?ng = "map F [0..<k] @ drop k ng0"
  have ih: "for_each [0..<k] body ng0 = Inr ?ng"
    using Suc by simp
  have k: "k < length ng0" using Suc.prems by simp
  have nth: "?ng ! k = ng0 ! k"
    using k by (simp add: nth_append)
  have "body k ?ng = Inr (?ng[k := F k])"
    using Suc.prems(1) [of k ?ng] Suc.prems(3) [of k] k nth by simp
  also have "?ng[k := F k] = map F [0..<Suc k] @ drop (Suc k) ng0"
    using k by (simp add: list_update_append update_drop_0)
  finally show ?case
    using ih by (simp add: for_each_snoc del: upt_Suc)
qed


lemma for_each_grid:
  assumes body: "\<And>x y ng. x < w \<Longrightarrow> y < h \<Longrightarrow> body y x ng = set_cell ng y x (f y x)"
    and len: "length ng0 = h" and rows: "\<And>y. y < h \<Longrightarrow> length (ng0 ! y) = w"
  shows "for_each [0..<h] (\<lambda>y ng. for_each [0..<w] (body y) ng) ng0 =
           Inr (map (\<lambda>y. map (f y) [0..<w]) [0..<h])"
proof -
  have row: "for_each [0..<w] (body y) ng = Inr (ng[y := map (f y) [0..<w]])"
    if "y < h" "y < length ng" "length (ng ! y) = w" for y ng
    using for_each_row [of w "body y" y "f y" ng] that body by simp
  have "for_each [0..<h] (\<lambda>y ng. for_each [0..<w] (body y) ng) ng0 =
          Inr (map (\<lambda>y. map (f y) [0..<w]) [0..<h] @ drop h ng0)"
    by (rule for_each_rows [where w = w]) (simp_all add: row len rows)
  then show ?thesis
    using len by simp
qed

subsection \<open>update\<close>

lemma update_newGrid_closed:
  "update_newGrid a =
     Inr (map (\<lambda>y. map (\<lambda>x. next_state a x y) [0..<grid_width (grid a)])
            [0..<length (grid a)])"
proof (cases "grid a = []")
  case True
  then show ?thesis
    by (simp add: update_newGrid_def new_Array_length_fill_def)
next
  case False
  let ?w = "grid_width (grid a)" and ?h = "length (grid a)"
  let ?blank = "replicate ?h (replicate ?w False)"
  have alloc: "map_err (\<lambda>_. bind_err (grid_0_length (grid a)) (\<lambda>w.
                  Inr (new_Array_length_fill w False))) (replicate ?h (0::nat)) = Inr ?blank"
    using False
    by (simp add: grid_0_length_nonempty new_Array_length_fill_def map_err_const
        map_replicate_const)
  have clear: "for_each [0..<?h] (\<lambda>y ng. for_each [0..<?w]
                 (\<lambda>x ng. set_cell ng y x False) ng) ?blank =
               Inr (map (\<lambda>y. map (\<lambda>x. False) [0..<?w]) [0..<?h])"
    by (rule for_each_grid) simp_all
  have fill: "for_each [0..<?h] (\<lambda>y ng. for_each [0..<?w]
                 (\<lambda>x ng. bind_err (next_cell a x y) (\<lambda>v. set_cell ng y x v)) ng)
                 (map (\<lambda>y. map (\<lambda>x. False) [0..<?w]) [0..<?h]) =
               Inr (map (\<lambda>y. map (\<lambda>x. next_state a x y) [0..<?w]) [0..<?h])"
    by (rule for_each_grid) (simp_all add: next_cell_pure)
  show ?thesis
    using False alloc clear fill
    by (simp add: update_newGrid_def new_Array_length_fill_def grid_0_length_nonempty)
qed

lemma update_closed:
  "update a =
     (None, a\<lparr>grid := map (\<lambda>y. map (\<lambda>x. next_state a x y) [0..<grid_width (grid a)])
                         [0..<length (grid a)]\<rparr>)"
  by (simp add: update_def update_newGrid_closed)


lemma grid_width_nth0: "g \<noteq> [] \<Longrightarrow> grid_width g = length (g ! 0)"
  by (cases g) (simp_all add: grid_width_def)

text \<open>
  Claim C3. One step sets the next state of every cell \<open>(x, y)\<close> of the grid as
  follows. With \<open>n\<close> the number that \<open>getNeighbors\<close> returns for \<open>(x, y)\<close> on the
  grid before the step, a cell that is alive becomes alive iff the SURVIVE flag (mask 1,
  bit position 0) of ruleset entry \<open>n\<close> is set, and a dead cell becomes alive iff the BIRTH
  flag (mask 2, bit position 1) of ruleset entry \<open>n\<close> is set. The count \<open>n\<close> is taken on
  the automaton \<open>a\<close> as it is before the step, the new state is read from the automaton
  \<open>a'\<close> that the step leaves, and the step throws nothing. The cells are those the loops
  visit: \<open>y\<close> below the number of rows and \<open>x\<close> below the length of row 0. A cell is
  alive when its row has an element \<open>x\<close> and that element is true.
\<close>

theorem update_applies_ruleset:
  assumes "y < length (grid a)" and "x < length (grid a ! 0)"
  shows "\<exists>n a'. getNeighbors a (int x) (int y) = Inr n \<and> update a = (None, a') \<and>
           y < length (grid a') \<and> x < length (grid a' ! y) \<and>
           (grid a' ! y ! x \<longleftrightarrow>
              (if x < length (grid a ! y) \<and> grid a ! y ! x
               then n < length (ruleset a) \<and> bit (ruleset a ! n) 0
               else n < length (ruleset a) \<and> bit (ruleset a ! n) 1))"
proof -
  from assms have ne: "grid a \<noteq> []" by auto
  with assms have x: "x < grid_width (grid a)"
    by (simp add: grid_width_nth0)
  let ?n = "live_neighbors a (int x) (int y)"
  have "getNeighbors a (int x) (int y) = Inr ?n"
    using ne by (rule getNeighbors_pure)
  moreover have "grid (snd (update a)) ! y ! x = next_state a x y"
    using assms(1) x by (simp add: update_closed)
  moreover have "length (grid (snd (update a))) = length (grid a)"
    and "length (grid (snd (update a)) ! y) = grid_width (grid a)"
    using assms(1) by (simp_all add: update_closed)
  moreover have "update a = (None, snd (update a))"
    by (simp add: update_closed)
  ultimately show ?thesis
    using assms(1) x
    by (intro exI [of _ ?n] exI [of _ "snd (update a)"])
       (simp add: next_state_def ruleset_and_1 ruleset_and_2)
qed

theorem update_applies_ruleset_witness:
  "(1::nat) < length (grid \<lparr>ruleset = [0, 0, 1, 3, 0, 0, 0, 0, 0], neighborhood = Moore,
       grid = [[True, True, False], [False, True, False]]\<rparr>) \<and>
   (0::nat) < length (grid \<lparr>ruleset = [0, 0, 1, 3, 0, 0, 0, 0, 0], neighborhood = Moore,
       grid = [[True, True, False], [False, True, False]]\<rparr> ! 0) \<and>
   (\<exists>n a'. getNeighbors \<lparr>ruleset = [0, 0, 1, 3, 0, 0, 0, 0, 0], neighborhood = Moore,
       grid = [[True, True, False], [False, True, False]]\<rparr> (int 0) (int 1) = Inr n \<and>
     update \<lparr>ruleset = [0, 0, 1, 3, 0, 0, 0, 0, 0], neighborhood = Moore,
       grid = [[True, True, False], [False, True, False]]\<rparr> = (None, a') \<and>
     grid a' ! 1 ! 0)"
proof -
  let ?a = "\<lparr>ruleset = [0, 0, 1, 3, 0, 0, 0, 0, 0], neighborhood = Moore,
       grid = [[True, True, False], [False, True, False]]\<rparr>"
  have h1: "(1::nat) < length (grid ?a)" by simp
  have h2: "(0::nat) < length (grid ?a ! 0)" by simp
  have n: "getNeighbors ?a (int 0) (int 1) = Inr 3"
    by (simp add: getNeighbors_def offsets_def neighbor_alive_def grid_0_length_def
        read_cell_def bind_err_def)
  from update_applies_ruleset [OF h1 h2] n show ?thesis
    using h1 h2 by auto
qed

text \<open>
  Claim C10. The step does not fail on a ruleset with fewer than 9 entries (nor on any
  other): for every cell whose count \<open>n\<close> of live neighbours is at least the length of
  the ruleset, the missing entry gives 0 under both masks, neither SURVIVE nor BIRTH,
  and the cell is dead after the step whatever it was before.
\<close>

theorem update_short_ruleset:
  assumes "y < length (grid a)" and "x < length (grid a ! 0)"
    and "getNeighbors a (int x) (int y) = Inr n" and "length (ruleset a) \<le> n"
  shows "\<exists>a'. update a = (None, a') \<and> y < length (grid a') \<and> x < length (grid a' ! y) \<and>
           \<not> grid a' ! y ! x \<and>
           ruleset_and (ruleset a) n 1 = 0 \<and> ruleset_and (ruleset a) n 2 = 0"
proof -
  from assms have ne: "grid a \<noteq> []" by auto
  with assms have x: "x < grid_width (grid a)"
    by (simp add: grid_width_nth0)
  have n: "live_neighbors a (int x) (int y) = n"
    using assms(3) ne by (simp add: getNeighbors_pure)
  have "\<not> next_state a x y"
    using assms(4) by (simp add: next_state_def n ruleset_and_def)
  then show ?thesis
    using assms(1,4) x by (simp add: update_closed ruleset_and_def)
qed

theorem update_short_ruleset_witness:
  "(0::nat) < length (grid \<lparr>ruleset = [0, 0, 1], neighborhood = Moore,
       grid = [[True, True], [True, True]]\<rparr>) \<and>
   (0::nat) < length (grid \<lparr>ruleset = [0, 0, 1], neighborhood = Moore,
       grid = [[True, True], [True, True]]\<rparr> ! 0) \<and>
   getNeighbors \<lparr>ruleset = [0, 0, 1], neighborhood = Moore,
       grid = [[True, True], [True, True]]\<rparr> (int 0) (int 0) = Inr 3 \<and>
   length (ruleset \<lparr>ruleset = [0, 0, 1], neighborhood = Moore,
       grid = [[True, True], [True, True]]\<rparr>) \<le> 3 \<and>
   (\<exists>a'. update \<lparr>ruleset = [0, 0, 1], neighborhood = Moore,
       grid = [[True, True], [True, True]]\<rparr> = (None, a') \<and> \<not> grid a' ! 0 ! 0)"
proof -
  let ?a = "\<lparr>ruleset = [0, 0, 1], neighborhood = Moore,
       grid = [[True, True], [True, True]]\<rparr>"
  have h1: "(0::nat) < length (grid ?a)" by simp
  have h2: "(0::nat) < length (grid ?a ! 0)" by simp
  have h3: "getNeighbors ?a (int 0) (int 0) = Inr 3"
    by (simp add: getNeighbors_def offsets_def neighbor_alive_def grid_0_length_def
        read_cell_def bind_err_def)
  have h4: "length (ruleset ?a) \<le> 3" by simp
  from update_short_ruleset [OF h1 h2 h3 h4] show ?thesis
    using h1 h2 h3 h4 by blast
qed

subsection \<open>getNeighbors\<close>

lemma set_offsets:
  "set (offsets nb) =
     (case nb of Moore \<Rightarrow> {-1, 0, 1} \<times> {-1, 0, 1} - {(0, 0)}
               | VonNeumann \<Rightarrow> {(0, -1), (-1, 0), (1, 0), (0, 1)})"
  by (cases nb) (auto simp: offsets_def)

lemma distinct_offsets: "distinct (offsets nb)"
  by (simp add: offsets_def)

lemma length_offsets: "length (offsets nb) = (case nb of Moore \<Rightarrow> 8 | VonNeumann \<Rightarrow> 4)"
  by (cases nb) (simp_all add: offsets_def)

lemma live_neighbors_card:
  "live_neighbors a x y =
     card {offset \<in> set (offsets (neighborhood a)).
             alive_at (grid a) (x + fst offset) (y + snd offset)}"
proof -
  have "{offset \<in> set (offsets (neighborhood a)).
             alive_at (grid a) (x + fst offset) (y + snd offset)} =
        {offset. alive_at (grid a) (x + fst offset) (y + snd offset)} \<inter>
          set (offsets (neighborhood a))"
    by auto
  then show ?thesis
    by (simp add: live_neighbors_def distinct_length_filter distinct_offsets)
qed

lemma live_neighbors_le: "live_neighbors a x y \<le> length (offsets (neighborhood a))"
  by (simp add: live_neighbors_def)

lemma alive_at_rectangular:
  assumes "length g = h" and "\<forall>row\<in>set g. length row = w" and "0 < h"
  shows "alive_at g nx ny \<longleftrightarrow>
           0 \<le> nx \<and> nx < int w \<and> 0 \<le> ny \<and> ny < int h \<and> g ! nat ny ! nat nx"
proof -
  from assms have ne: "g \<noteq> []" by auto
  then have "g ! 0 \<in> set g" by simp
  with assms ne have w: "grid_width g = w"
    by (simp add: grid_width_nth0)
  have "length (g ! nat ny) = w" if "0 \<le> ny" "ny < int h"
    using that assms(1,2) by (simp add: nat_less_iff)
  then show ?thesis
    using assms(1) by (auto simp: alive_at_def w nat_less_iff)
qed

text \<open>
  Claim C4. On a rectangular grid of width \<open>w\<close> and height \<open>h\<close>, for a cell \<open>(x, y)\<close>
  inside it, \<open>getNeighbors\<close> returns the number of offsets \<open>(dx, dy)\<close> of the
  neighbourhood for which \<open>(x + dx, y + dy)\<close> lies in \<open>[0, w) \<times> [0, h)\<close> and holds a live
  cell. The neighbourhood is the 8 offsets of \<open>{-1, 0, 1} \<times> {-1, 0, 1}\<close> other than
  \<open>(0, 0)\<close> for Moore and the 4 orthogonal offsets for von Neumann. An offset that lands
  outside the grid adds nothing, and there is no wraparound. The count is at most 8 for
  Moore and at most 4 for von Neumann.
\<close>

theorem getNeighbors_counts_live_offsets:
  assumes "length (grid a) = h" and "\<forall>row\<in>set (grid a). length row = w"
    and "x < w" and "y < h"
  shows "getNeighbors a (int x) (int y) =
           Inr (card {(dx, dy).
                  (dx, dy) \<in> (case neighborhood a of
                                 Moore \<Rightarrow> {-1, 0, 1} \<times> {-1, 0, 1} - {(0, 0)}
                               | VonNeumann \<Rightarrow> {(0, -1), (-1, 0), (1, 0), (0, 1)}) \<and>
                  0 \<le> int x + dx \<and> int x + dx < int w \<and>
                  0 \<le> int y + dy \<and> int y + dy < int h \<and>
                  grid a ! nat (int y + dy) ! nat (int x + dx)}) \<and>
         (\<exists>n. getNeighbors a (int x) (int y) = Inr n \<and>
              n \<le> (case neighborhood a of Moore \<Rightarrow> 8 | VonNeumann \<Rightarrow> 4))"
proof -
  from assms have ne: "grid a \<noteq> []" and h: "0 < h" by auto
  have count: "getNeighbors a (int x) (int y) = Inr (live_neighbors a (int x) (int y))"
    using ne by (rule getNeighbors_pure)
  have "{offset \<in> set (offsets (neighborhood a)).
           alive_at (grid a) (int x + fst offset) (int y + snd offset)} =
        {(dx, dy).
           (dx, dy) \<in> (case neighborhood a of
                          Moore \<Rightarrow> {-1, 0, 1} \<times> {-1, 0, 1} - {(0, 0)}
                        | VonNeumann \<Rightarrow> {(0, -1), (-1, 0), (1, 0), (0, 1)}) \<and>
           0 \<le> int x + dx \<and> int x + dx < int w \<and>
           0 \<le> int y + dy \<and> int y + dy < int h \<and>
           grid a ! nat (int y + dy) ! nat (int x + dx)}"
    unfolding set_offsets alive_at_rectangular [OF assms(1,2) h] by auto
  then have "live_neighbors a (int x) (int y) = card {(dx, dy).
           (dx, dy) \<in> (case neighborhood a of
                          Moore \<Rightarrow> {-1, 0, 1} \<times> {-1, 0, 1} - {(0, 0)}
                        | VonNeumann \<Rightarrow> {(0, -1), (-1, 0), (1, 0), (0, 1)}) \<and>
           0 \<le> int x + dx \<and> int x + dx < int w \<and>
           0 \<le> int y + dy \<and> int y + dy < int h \<and>
           grid a ! nat (int y + dy) ! nat (int x + dx)}"
    by (simp only: live_neighbors_card)
  moreover have "live_neighbors a (int x) (int y) \<le>
                   (case neighborhood a of Moore \<Rightarrow> 8 | VonNeumann \<Rightarrow> 4)"
    using live_neighbors_le [of a "int x" "int y"] by (simp add: length_offsets)
  ultimately show ?thesis
    using count by simp
qed

theorem getNeighbors_counts_live_offsets_witness:
  "length (grid \<lparr>ruleset = [0, 3, 0, 3, 0, 3, 0, 3, 0], neighborhood = Moore,
       grid = [[True, True, True], [True, True, True], [True, True, True]]\<rparr>) = 3 \<and>
   map length (grid \<lparr>ruleset = [0, 3, 0, 3, 0, 3, 0, 3, 0], neighborhood = Moore,
       grid = [[True, True, True], [True, True, True], [True, True, True]]\<rparr>) =
     [3, 3, 3] \<and> (0::nat) < 3 \<and> (1::nat) < 3 \<and>
   (\<exists>n. getNeighbors \<lparr>ruleset = [0, 3, 0, 3, 0, 3, 0, 3, 0], neighborhood = Moore,
       grid = [[True, True, True], [True, True, True], [True, True, True]]\<rparr>
       (int 0) (int 1) = Inr n \<and> n \<le> 8) \<and>
   getNeighbors \<lparr>ruleset = [0, 3, 0, 3, 0, 3, 0, 3, 0], neighborhood = Moore,
       grid = [[True, True, True], [True, True, True], [True, True, True]]\<rparr>
       (int 0) (int 1) = Inr 5"
proof -
  let ?a = "\<lparr>ruleset = [0, 3, 0, 3, 0, 3, 0, 3, 0], neighborhood = Moore,
       grid = [[True, True, True], [True, True, True], [True, True, True]]\<rparr>"
  have h1: "length (grid ?a) = 3" by simp
  have h2: "\<forall>row\<in>set (grid ?a). length row = 3" by simp
  have h3: "(0::nat) < 3" and h4: "(1::nat) < 3" by simp_all
  have n: "getNeighbors ?a (int 0) (int 1) = Inr 5"
    by (simp add: getNeighbors_def offsets_def neighbor_alive_def grid_0_length_def
        read_cell_def bind_err_def)
  from getNeighbors_counts_live_offsets [OF h1 h2 h3 h4] n show ?thesis
    using h1 h2 by simp
qed

subsection \<open>Closed forms of the constructor\<close>

lemma constructor_bad_height:
  "height < 0 \<or> 2 ^ 32 \<le> height \<Longrightarrow>
   Automata_constructor rs nb width height initRand density rnd = Inl RangeError"
  by (auto simp: Automata_constructor_def new_Array_fill_def)

lemma constructor_zero_height:
  "Automata_constructor rs nb width 0 initRand density rnd =
     (if initRand then Inr \<lparr>ruleset = rs, neighborhood = nb, grid = []\<rparr> else Inl TypeError)"
  by (simp add: Automata_constructor_def new_Array_fill_def set_cell_int_def set_cell_def)

lemma map_err_Inl: "xs \<noteq> [] \<Longrightarrow> map_err (\<lambda>_. Inl e) xs = Inl e"
  by (cases xs) simp_all

lemma constructor_bad_width:
  "1 \<le> height \<Longrightarrow> height < 2 ^ 32 \<Longrightarrow> width < 0 \<or> 2 ^ 32 \<le> width \<Longrightarrow>
   Automata_constructor rs nb width height initRand density rnd = Inl RangeError"
  by (auto simp: Automata_constructor_def new_Array_fill_def map_err_Inl)

lemma constructor_random:
  assumes "0 \<le> height" "height < 2 ^ 32" and "0 \<le> width" "width < 2 ^ 32"
  shows "Automata_constructor rs nb width height True density rnd =
           Inr \<lparr>ruleset = rs, neighborhood = nb,
                grid = map (\<lambda>y. map (\<lambda>x. rnd (y * nat width + x) > 1 - density)
                                 [0..<nat width]) [0..<nat height]\<rparr>"
proof -
  let ?blank = "replicate (nat height) (replicate (nat width) False)"
  have "for_each [0..<nat height] (\<lambda>y g. for_each [0..<nat width]
          (\<lambda>x g. set_cell g y x (rnd (y * nat width + x) > 1 - density)) g) ?blank =
        Inr (map (\<lambda>y. map (\<lambda>x. rnd (y * nat width + x) > 1 - density)
                        [0..<nat width]) [0..<nat height])"
    by (rule for_each_grid) simp_all
  then show ?thesis
    using assms
    by (simp add: Automata_constructor_def new_Array_fill_def map_err_const
        map_replicate_const)
qed

lemma constructor_seed:
  assumes "1 \<le> height" "height < 2 ^ 32" and "0 \<le> width" "width < 2 ^ 32"
  shows "Automata_constructor rs nb width height False density rnd =
           Inr \<lparr>ruleset = rs, neighborhood = nb,
                grid = (replicate (nat height) (replicate (nat width) False))
                  [nat (height div 2) :=
                     (if 1 \<le> width then (replicate (nat width) False)[nat (width div 2) := True]
                      else [True])]\<rparr>"
proof -
  have y: "nat (height div 2) < nat height" and "0 \<le> height div 2"
    using assms(1) by simp_all
  moreover have "0 \<le> width div 2" and "1 \<le> width \<Longrightarrow> nat (width div 2) < nat width"
    using assms(3) by simp_all
  moreover have "\<not> 1 \<le> width \<Longrightarrow> width = 0"
    using assms(3) by simp
  ultimately show ?thesis
    using assms
    by (auto simp: Automata_constructor_def new_Array_fill_def map_err_const
        map_replicate_const set_cell_int_def set_cell_def Let_def)
qed

subsection \<open>Closed forms of resize\<close>

lemma widen_rows_uniform:
  assumes "\<forall>row\<in>set g. length row = w0" and "int w0 \<le> width"
    and "width - int w0 < 2 ^ 32"
  shows "widen_rows width g = (None, map (\<lambda>row. row @ replicate (nat width - w0) False) g)"
  using assms
  by (induction g) (simp_all add: new_Array_fill_def nat_diff_distrib')

lemma widen_rows_throws:
  assumes "g \<noteq> []" and "\<forall>row\<in>set g. length row = w0" and "2 ^ 32 \<le> width - int w0"
  shows "widen_rows width g = (Some RangeError, g)"
  using assms by (cases g) (simp_all add: new_Array_fill_def)

lemma grow_rows_closed:
  "0 \<le> width \<and> width < 2 ^ 32 \<Longrightarrow>
   grow_rows width height i g =
     (None, g @ replicate (nat ((height - int (length g) - i + 1) div 2))
                   (replicate (nat width) False))"
proof (induction width height i g rule: grow_rows.induct)
  case (1 width height i g)
  show ?case
  proof (cases "i < height - int (length g)")
    case True
    have "grow_rows width height i g =
            grow_rows width height (i + 1) (g @ [replicate (nat width) False])"
      using True "1.prems" by (subst grow_rows.simps) (simp add: new_Array_fill_def)
    also have "\<dots> = (None, (g @ [replicate (nat width) False]) @
        replicate (nat ((height - int (length (g @ [replicate (nat width) False])) - (i + 1) + 1) div 2))
          (replicate (nat width) False))"
      using True "1.prems" by (intro "1.IH") (simp_all add: new_Array_fill_def)
    also have "nat ((height - int (length g) - i + 1) div 2) =
        Suc (nat ((height - int (length (g @ [replicate (nat width) False])) - (i + 1) + 1) div 2))"
      using True by simp
    then have "(g @ [replicate (nat width) False]) @
        replicate (nat ((height - int (length (g @ [replicate (nat width) False])) - (i + 1) + 1) div 2))
          (replicate (nat width) False) =
        g @ replicate (nat ((height - int (length g) - i + 1) div 2)) (replicate (nat width) False)"
      by (simp only: replicate_Suc append_assoc append_Cons append_Nil)
    finally show ?thesis .
  next
    case False
    then have "nat ((height - int (length g) - i + 1) div 2) = 0"
      by simp
    then show ?thesis
      using False by (subst grow_rows.simps) simp
  qed
qed

lemma grow_rows_shape:
  "\<exists>e k. grow_rows width height i g = (e, g @ replicate k (replicate (nat width) False))"
proof (cases "0 \<le> width \<and> width < 2 ^ 32")
  case True
  then show ?thesis
    using grow_rows_closed [of width height i g] by blast
next
  case False
  then have "new_Array_fill width False = Inl RangeError"
    by (auto simp: new_Array_fill_def)
  then have "grow_rows width height i g =
               (if i < height - int (length g) then (Some RangeError, g) else (None, g))"
    by (subst grow_rows.simps) simp
  then have "\<exists>e. grow_rows width height i g = (e, g @ replicate 0 (replicate (nat width) False))"
    by (cases "i < height - int (length g)") simp_all
  then show ?thesis by blast
qed

text \<open>
  Claim C6. A call \<open>resize(w, h)\<close> with \<open>w < 1\<close> or \<open>h < 1\<close>, or with \<open>h\<close> the number
  of rows and \<open>w\<close> the length of row 0 (for a rectangular grid: its dimensions), throws
  nothing and leaves the object as it was, the grid included.
\<close>

theorem resize_noop:
  assumes "width < 1 \<or> height < 1 \<or>
           (height = int (length (grid a)) \<and> width = int (length (grid a ! 0)))"
  shows "resize width height a = (None, a)"
proof (cases "width < 1 \<or> height < 1")
  case True
  then show ?thesis by (simp add: resize_def)
next
  case False
  with assms have dims: "height = int (length (grid a))" "width = int (length (grid a ! 0))"
    by auto
  with False have "grid a \<noteq> []" by auto
  then have "grid_0_length (grid a) = Inr (length (grid a ! 0))"
    by (simp add: grid_0_length_nonempty grid_width_nth0)
  then show ?thesis
    using dims by (simp add: resize_def)
qed

theorem resize_noop_witness:
  "resize 0 5 \<lparr>ruleset = [0, 3, 0, 3, 0, 3, 0, 3, 0], neighborhood = Moore,
      grid = [[True, False], [False, True]]\<rparr> =
     (None, \<lparr>ruleset = [0, 3, 0, 3, 0, 3, 0, 3, 0], neighborhood = Moore,
      grid = [[True, False], [False, True]]\<rparr>) \<and>
   resize 5 0 \<lparr>ruleset = [0, 3, 0, 3, 0, 3, 0, 3, 0], neighborhood = Moore,
      grid = [[True, False], [False, True]]\<rparr> =
     (None, \<lparr>ruleset = [0, 3, 0, 3, 0, 3, 0, 3, 0], neighborhood = Moore,
      grid = [[True, False], [False, True]]\<rparr>) \<and>
   resize 2 2 \<lparr>ruleset = [0, 3, 0, 3, 0, 3, 0, 3, 0], neighborhood = Moore,
      grid = [[True, False], [False, True]]\<rparr> =
     (None, \<lparr>ruleset = [0, 3, 0, 3, 0, 3, 0, 3, 0], neighborhood = Moore,
      grid = [[True, False], [False, True]]\<rparr>)"
proof -
  let ?a = "\<lparr>ruleset = [0, 3, 0, 3, 0, 3, 0, 3, 0], neighborhood = Moore,
      grid = [[True, False], [False, True]]\<rparr>"
  have "resize 0 5 ?a = (None, ?a)"
    by (rule resize_noop) simp
  moreover have "resize 5 0 ?a = (None, ?a)"
    by (rule resize_noop) simp
  moreover have "resize 2 2 ?a = (None, ?a)"
    by (rule resize_noop) simp
  ultimately show ?thesis by simp
qed

lemma resize_closed:
  assumes ne: "grid a \<noteq> []" and rows: "\<forall>row\<in>set (grid a). length row = w0"
    and pos: "1 \<le> width" "1 \<le> height" and limit: "width < 2 ^ 32"
  shows "resize width height a =
           (None, a\<lparr>grid :=
              take (nat height)
                (map (\<lambda>row. take (nat width) row @ replicate (nat width - w0) False) (grid a)) @
              replicate (nat ((height - int (length (grid a)) + 1) div 2))
                (replicate (nat width) False)\<rparr>)"
proof -
  let ?g = "grid a"
  let ?g1 = "map (\<lambda>row. take (nat width) row @ replicate (nat width - w0) False) ?g"
  let ?k = "nat ((height - int (length ?g) + 1) div 2)"
  from ne have "?g ! 0 \<in> set ?g" by simp
  with rows ne have w0: "grid_0_length ?g = Inr w0"
    by (simp add: grid_0_length_nonempty grid_width_nth0)
  have shrink: "map (take (nat width)) ?g = ?g1" if "width < int w0"
    using that by simp
  have widen: "widen_rows width ?g = (None, ?g1)" if "int w0 < width"
  proof -
    have "widen_rows width ?g = (None, map (\<lambda>row. row @ replicate (nat width - w0) False) ?g)"
      using rows that limit by (intro widen_rows_uniform) simp_all
    also have "map (\<lambda>row. row @ replicate (nat width - w0) False) ?g = ?g1"
      using rows that by simp
    finally show ?thesis .
  qed
  have same: "?g = ?g1" if "width = int w0"
    using rows that by (simp add: map_idI)
  have len1: "length ?g1 = length ?g" by simp
  have lower: "take (nat height) ?g1 = take (nat height) ?g1 @ replicate ?k (replicate (nat width) False)"
    if "height < int (length ?g)"
  proof -
    from that have "?k = 0" by simp
    then show ?thesis by simp
  qed
  have higher: "grow_rows width height 0 ?g1 =
                  (None, take (nat height) ?g1 @ replicate ?k (replicate (nat width) False))"
    if "int (length ?g) < height"
    using that pos limit grow_rows_closed [of width height 0 ?g1] by simp
  have level: "?g1 = take (nat height) ?g1 @ replicate ?k (replicate (nat width) False)"
    if "height = int (length ?g)"
  proof -
    from that have "?k = 0" by simp
    then show ?thesis using that by simp
  qed
  have unchanged: "a\<lparr>grid := ?g1\<rparr> = a" if "width = int w0"
    using same that by simp
  consider "width < int w0" | "int w0 < width" | "width = int w0" by linarith
  then have step1: "(if width < int w0 then (None, map (take (nat width)) ?g)
                     else if width > int w0 then widen_rows width ?g
                     else (None, ?g)) = (None, ?g1)"
  proof cases
    case 1
    then show ?thesis using shrink by simp
  next
    case 2
    then show ?thesis using widen by simp
  next
    case 3
    then show ?thesis using same by simp
  qed
  consider "height < int (length ?g)" | "int (length ?g) < height" | "height = int (length ?g)"
    by linarith
  then have step2: "(if height < int (length ?g1) then (None, take (nat height) ?g1)
                     else if height > int (length ?g1) then grow_rows width height 0 ?g1
                     else (None, ?g1)) =
                    (None, take (nat height) ?g1 @ replicate ?k (replicate (nat width) False))"
  proof cases
    case 1
    then show ?thesis using lower by (simp only: len1 if_True)
  next
    case 2
    then show ?thesis using higher by (simp only: len1) simp
  next
    case 3
    then show ?thesis using level by (simp only: len1) simp
  qed
  show ?thesis
  proof (cases "width = int w0 \<and> height = int (length ?g)")
    case True
    then have "take (nat height) ?g1 @ replicate ?k (replicate (nat width) False) = ?g"
      using level same by simp
    then show ?thesis
      using True pos w0 by (simp add: resize_def)
  next
    case False
    then have guard2: "(width = int w0 \<and> height = int (length ?g)) = False"
      by simp
    have guard1: "(width < 1 \<or> height < 1) = False"
      using pos by simp
    show ?thesis
      by (simp only: resize_def guard1 guard2 if_False w0 sum.case step1 step2
          prod.case option.case)
  qed
qed

subsection \<open>Rectangular grids\<close>

lemma rectangular_uniform: "\<forall>row\<in>set g. length row = w \<Longrightarrow> rectangular g"
  by (simp add: rectangular_def)

lemma rectangular_rows:
  assumes "rectangular g" and "g \<noteq> []"
  shows "\<forall>row\<in>set g. length row = length (g ! 0)"
proof -
  from assms(2) have "g ! 0 \<in> set g" by simp
  with assms(1) show ?thesis unfolding rectangular_def by blast
qed

lemma rectangular_update: "rectangular (grid (snd (update a)))"
  by (rule rectangular_uniform [where w = "grid_width (grid a)"]) (auto simp: update_closed)


lemma resize_steps:
  assumes "1 \<le> width" and "1 \<le> height" and "grid_0_length (grid a) = Inr w0"
    and "\<not> (width = int w0 \<and> height = int (length (grid a)))"
  shows "resize width height a =
           (case (if width < int w0 then (None, map (take (nat width)) (grid a))
                  else if width > int w0 then widen_rows width (grid a)
                  else (None, grid a)) of
              (Some e, g1) \<Rightarrow> (Some e, a\<lparr>grid := g1\<rparr>)
            | (None, g1) \<Rightarrow>
                (case (if height < int (length g1) then (None, take (nat height) g1)
                       else if height > int (length g1) then grow_rows width height 0 g1
                       else (None, g1)) of
                   (e, g2) \<Rightarrow> (e, a\<lparr>grid := g2\<rparr>)))"
proof -
  have guard1: "(width < 1 \<or> height < 1) = False"
    using assms(1,2) by simp
  have guard2: "(width = int w0 \<and> height = int (length (grid a))) = False"
    using assms(4) by simp
  show ?thesis
    by (simp only: resize_def guard1 guard2 if_False assms(3) sum.case)
qed

lemma rectangular_resize:
  assumes "rectangular (grid a)"
  shows "rectangular (grid (snd (resize width height a)))"
proof (cases "width < 1 \<or> height < 1 \<or> grid a = []")
  case True
  then have "snd (resize width height a) = a"
    by (auto simp: resize_def grid_0_length_def)
  with assms show ?thesis by simp
next
  case False
  define w0 where "w0 = length (grid a ! 0)"
  have rows: "\<forall>row\<in>set (grid a). length row = w0"
    unfolding w0_def using False assms by (intro rectangular_rows) simp_all
  have w0: "grid_0_length (grid a) = Inr w0"
    unfolding w0_def using False by (simp add: grid_0_length_nonempty grid_width_nth0)
  show ?thesis
  proof (cases "width = int w0 \<and> height = int (length (grid a))")
    case True
    then have "resize width height a = (None, a)"
      using False w0 by (simp add: resize_def)
    with assms show ?thesis by simp
  next
    case unequal: False
    define step1 where
      "step1 = (if width < int w0 then (None, map (take (nat width)) (grid a))
                else if width > int w0 then widen_rows width (grid a)
                else (None, grid a))"
    have steps: "resize width height a =
           (case step1 of
              (Some e, g1) \<Rightarrow> (Some e, a\<lparr>grid := g1\<rparr>)
            | (None, g1) \<Rightarrow>
                (case (if height < int (length g1) then (None, take (nat height) g1)
                       else if height > int (length g1) then grow_rows width height 0 g1
                       else (None, g1)) of
                   (e, g2) \<Rightarrow> (e, a\<lparr>grid := g2\<rparr>)))"
      unfolding step1_def using False w0 unequal by (intro resize_steps) simp_all
    have first: "step1 = (Some RangeError, grid a) \<or>
                 (\<exists>g1. step1 = (None, g1) \<and> (\<forall>row\<in>set g1. length row = nat width))"
    proof -
      consider (shrink) "width < int w0"
        | (throw) "int w0 < width" "2 ^ 32 \<le> width - int w0"
        | (widen) "int w0 < width" "width - int w0 < 2 ^ 32"
        | (same) "width = int w0"
        by linarith
      then show ?thesis
      proof cases
        case shrink
        then have "step1 = (None, map (take (nat width)) (grid a))"
          by (simp add: step1_def)
        moreover have "\<forall>row\<in>set (map (take (nat width)) (grid a)). length row = nat width"
          using rows shrink by auto
        ultimately show ?thesis by blast
      next
        case throw
        have "widen_rows width (grid a) = (Some RangeError, grid a)"
          using False rows throw(2) by (intro widen_rows_throws) simp_all
        with throw(1) show ?thesis
          by (simp add: step1_def)
      next
        case widen
        have "widen_rows width (grid a) =
                (None, map (\<lambda>row. row @ replicate (nat width - w0) False) (grid a))"
          using rows widen by (intro widen_rows_uniform) simp_all
        with widen(1) have "step1 =
                (None, map (\<lambda>row. row @ replicate (nat width - w0) False) (grid a))"
          by (simp add: step1_def)
        moreover have "\<forall>row\<in>set (map (\<lambda>row. row @ replicate (nat width - w0) False) (grid a)).
                         length row = nat width"
          using rows widen(1) by auto
        ultimately show ?thesis by blast
      next
        case same
        then have "step1 = (None, grid a)"
          by (simp add: step1_def)
        moreover have "\<forall>row\<in>set (grid a). length row = nat width"
          using rows same by simp
        ultimately show ?thesis by blast
      qed
    qed
    from first show ?thesis
    proof
      assume "step1 = (Some RangeError, grid a)"
      with steps have "resize width height a = (Some RangeError, a\<lparr>grid := grid a\<rparr>)"
        by simp
      with assms show ?thesis by simp
    next
      assume "\<exists>g1. step1 = (None, g1) \<and> (\<forall>row\<in>set g1. length row = nat width)"
      then obtain g1 where g1: "step1 = (None, g1)"
        and uniform1: "\<forall>row\<in>set g1. length row = nat width"
        by blast
      define step2 where
        "step2 = (if height < int (length g1) then (None, take (nat height) g1)
                  else if height > int (length g1) then grow_rows width height 0 g1
                  else (None, g1))"
      from steps g1 have "resize width height a =
                            (case step2 of (e, g2) \<Rightarrow> (e, a\<lparr>grid := g2\<rparr>))"
        by (simp add: step2_def)
      then have new: "grid (snd (resize width height a)) = snd step2"
        by (simp add: case_prod_beta)
      obtain e k where grown: "grow_rows width height 0 g1 =
                          (e, g1 @ replicate k (replicate (nat width) False))"
        using grow_rows_shape by blast
      have "snd step2 = take (nat height) g1 \<or>
            snd step2 = g1 @ replicate k (replicate (nat width) False) \<or>
            snd step2 = g1"
        unfolding step2_def grown by simp
      then consider "snd step2 = take (nat height) g1"
        | "snd step2 = g1 @ replicate k (replicate (nat width) False)"
        | "snd step2 = g1"
        by blast
      then have "\<forall>row\<in>set (snd step2). length row = nat width"
      proof cases
        case 1
        then show ?thesis
          using uniform1 by (auto dest: in_set_takeD)
      next
        case 2
        then show ?thesis
          using uniform1 by auto
      next
        case 3
        then show ?thesis
          using uniform1 by simp
      qed
      then show ?thesis
        unfolding new by (rule rectangular_uniform)
    qed
  qed
qed

lemma rectangular_constructor:
  assumes "1 \<le> width \<or> initRand"
    and "Automata_constructor rs nb width height initRand density rnd = Inr a"
  shows "rectangular (grid a)"
proof -
  consider "height < 0 \<or> 2 ^ 32 \<le> height" | "height = 0"
    | "1 \<le> height" "height < 2 ^ 32" "width < 0 \<or> 2 ^ 32 \<le> width"
    | "1 \<le> height" "height < 2 ^ 32" "0 \<le> width" "width < 2 ^ 32"
    by linarith
  then show ?thesis
  proof cases
    case 1
    with assms(2) show ?thesis by (simp add: constructor_bad_height)
  next
    case 2
    with assms(2) have "grid a = []"
      by (auto simp: constructor_zero_height split: if_splits)
    then show ?thesis by (simp add: rectangular_def)
  next
    case 3
    with assms(2) show ?thesis by (simp add: constructor_bad_width)
  next
    case 4
    show ?thesis
    proof (cases initRand)
      case True
      with 4 assms(2) have "grid a =
          map (\<lambda>y. map (\<lambda>x. rnd (y * nat width + x) > 1 - density) [0..<nat width])
            [0..<nat height]"
        by (auto simp: constructor_random)
      then show ?thesis
        by (intro rectangular_uniform [where w = "nat width"]) auto
    next
      case False
      define blank where "blank = replicate (nat width) False"
      from False assms(1) have w: "1 \<le> width" by simp
      with 4 False assms(2) have new: "grid a =
          (replicate (nat height) blank)[nat (height div 2) := blank[nat (width div 2) := True]]"
        unfolding blank_def by (auto simp: constructor_seed)
      show ?thesis
      proof (rule rectangular_uniform [where w = "nat width"], rule ballI)
        fix row
        assume "row \<in> set (grid a)"
        then have "row \<in> insert (blank[nat (width div 2) := True])
                             (set (replicate (nat height) blank))"
          unfolding new
          using set_update_subset_insert [of "replicate (nat height) blank"
              "nat (height div 2)" "blank[nat (width div 2) := True]"]
          by (rule subsetD [rotated])
        then consider "row = blank[nat (width div 2) := True]" | "row = blank"
          by (auto split: if_splits)
        then show "length row = nat width"
          by cases (simp_all add: blank_def)
      qed
    qed
  qed
qed


text \<open>
  Claim C8, amended. The grid that construction produces is rectangular when the width
  is at least 1 or the initialisation is random. A step leaves a rectangular grid,
  whatever the grid was before. A resize, for any arguments, applied to a rectangular
  grid leaves a rectangular grid, also when it ends with an exception.
\<close>

theorem rectangular_invariant:
  "(1 \<le> width \<or> initRand \<longrightarrow>
      Automata_constructor rs nb width height initRand density rnd = Inr a0 \<longrightarrow>
      rectangular (grid a0)) \<and>
   rectangular (grid (snd (update a))) \<and>
   (rectangular (grid a) \<longrightarrow> rectangular (grid (snd (resize w h a))))"
  using rectangular_constructor rectangular_update rectangular_resize by blast

theorem rectangular_invariant_witness:
  "Automata_constructor [0, 3, 0, 3, 0, 3, 0, 3, 0] Moore 3 2 False (1 / 10 :: real) (\<lambda>k. 0) =
     Inr \<lparr>ruleset = [0, 3, 0, 3, 0, 3, 0, 3, 0], neighborhood = Moore,
          grid = [[False, False, False], [False, True, False]]\<rparr> \<and>
   rectangular [[False, False, False], [False, True, False]] \<and>
   rectangular (grid (snd (update \<lparr>ruleset = [0, 3, 0, 3, 0, 3, 0, 3, 0],
     neighborhood = Moore, grid = [[False, False, False], [False, True, False]]\<rparr>))) \<and>
   rectangular (grid (snd (resize 5 4 \<lparr>ruleset = [0, 3, 0, 3, 0, 3, 0, 3, 0],
     neighborhood = Moore, grid = [[False, False, False], [False, True, False]]\<rparr>)))"
proof -
  let ?rs = "[0, 3, 0, 3, 0, 3, 0, 3, 0] :: int list"
  let ?g = "[[False, False, False], [False, True, False]]"
  let ?a = "\<lparr>ruleset = ?rs, neighborhood = Moore, grid = ?g\<rparr>"
  have c: "Automata_constructor ?rs Moore 3 2 False (1 / 10 :: real) (\<lambda>k. 0) = Inr ?a"
    by (simp add: constructor_seed eval_nat_numeral)
  have w: "(1::int) \<le> 3 \<or> False" by simp
  note inv = rectangular_invariant [of 3 False ?rs Moore 2 "1 / 10 :: real" "\<lambda>k. 0" ?a ?a 5 4]
  from inv w c have r: "rectangular (grid ?a)" by blast
  with inv have "rectangular (grid (snd (resize 5 4 ?a)))" by blast
  moreover from inv have "rectangular (grid (snd (update ?a)))" by blast
  ultimately show ?thesis
    using c r by simp
qed

theorem constructor_zero_width_not_rectangular:
  "Automata_constructor [0, 3, 0, 3, 0, 3, 0, 3, 0] Moore 0 2 False (1 / 10 :: real) (\<lambda>k. 0) =
     Inr \<lparr>ruleset = [0, 3, 0, 3, 0, 3, 0, 3, 0], neighborhood = Moore,
          grid = [[], [True]]\<rparr> \<and>
   \<not> rectangular [[], [True]]"
  by (simp add: constructor_seed rectangular_def eval_nat_numeral)

subsection \<open>What the constructor checks\<close>


text \<open>
  Claim C1, amended. The constructor does not look at the length of the ruleset: for
  any two rulesets, of length 8, 9, 10 or any other, and the same remaining arguments,
  it fails with the same exception or succeeds with the same neighbourhood and grid, and
  on success the object holds the ruleset it was given. No exception is raised for the
  ruleset.
\<close>

theorem constructor_ignores_ruleset_length:
  "Automata_constructor rs nb width height initRand density rnd =
     map_sum id (\<lambda>a. a\<lparr>ruleset := rs\<rparr>)
       (Automata_constructor rs' nb width height initRand density rnd)"
  by (simp add: Automata_constructor_def bind_err_def split: sum.splits)

theorem constructor_accepts_rulesets_of_length_8_and_10:
  "Automata_constructor [0, 3, 0, 3, 0, 3, 0, 3] Moore 1 1 False (1 / 10 :: real) (\<lambda>k. 0) =
     Inr \<lparr>ruleset = [0, 3, 0, 3, 0, 3, 0, 3], neighborhood = Moore, grid = [[True]]\<rparr> \<and>
   Automata_constructor [0, 3, 0, 3, 0, 3, 0, 3, 0, 3] Moore 1 1 False (1 / 10 :: real) (\<lambda>k. 0) =
     Inr \<lparr>ruleset = [0, 3, 0, 3, 0, 3, 0, 3, 0, 3], neighborhood = Moore,
          grid = [[True]]\<rparr>"
  by (simp add: constructor_seed)




subsection \<open>Growing the grid\<close>

text \<open>
  Claim C5 (the code departs from it). \<open>resize(w2, h2)\<close> is to give a grid of the
  dimensions \<open>(w2, h2)\<close>. The loop that appends rows compares its counter with
  \<open>height - this.grid.length\<close>, which shrinks with every row it appends, so it stops
  after about half of the missing rows: on the 1 \<times> 1 grid, \<open>resize(1, 3)\<close> ends with
  2 rows and not 3.
\<close>

theorem resize_appends_half_of_the_missing_rows:
  "resize 1 3 \<lparr>ruleset = [0, 3, 0, 3, 0, 3, 0, 3, 0], neighborhood = Moore,
      grid = [[True]]\<rparr> =
     (None, \<lparr>ruleset = [0, 3, 0, 3, 0, 3, 0, 3, 0], neighborhood = Moore,
      grid = [[True], [False]]\<rparr>)"
  by (simp add: resize_def grid_0_length_def new_Array_fill_def grow_rows.simps)

text \<open>
  Claim C7 (the code departs from it). \<open>resize(w2, h2)\<close> followed by \<open>resize(w1, h1)\<close>
  is to give back a grid of the original dimensions. When the first call removes two or
  more rows, the second call appends only about half of them: from the 1 \<times> 3 grid,
  \<open>resize(1, 1)\<close> and then \<open>resize(1, 3)\<close> end with 2 rows and not 3.
\<close>

theorem resize_there_and_back_loses_rows:
  "resize 1 3 (snd (resize 1 1 \<lparr>ruleset = [0, 3, 0, 3, 0, 3, 0, 3, 0], neighborhood = Moore,
      grid = [[False], [True], [False]]\<rparr>)) =
     (None, \<lparr>ruleset = [0, 3, 0, 3, 0, 3, 0, 3, 0], neighborhood = Moore,
      grid = [[False], [False]]\<rparr>)"
  by (simp add: resize_def grid_0_length_def new_Array_fill_def grow_rows.simps)

subsection \<open>The blinker\<close>

lemma length_filter_sum: "length (filter P xs) = (\<Sum>x\<leftarrow>xs. if P x then 1 else 0)"
  by (induction xs) simp_all

lemma moore_count:
  "length (filter P (offsets Moore)) =
     (if P (0, -1) then 1 else 0) + (if P (-1, 0) then 1 else 0) +
     (if P (1, 0) then 1 else 0) + (if P (0, 1) then 1 else 0) +
     (if P (-1, -1) then 1 else 0) + (if P (1, -1) then 1 else 0) +
     (if P (-1, 1) then 1 else (0::nat)) + (if P (1, 1) then 1 else 0)"
  by (simp add: length_filter_sum offsets_def)

lemma horizontal_count:
  fixes x y cx cy :: int
  shows "(let n = length (filter (\<lambda>offset. y + snd offset = cy \<and>
                     cx - 1 \<le> x + fst offset \<and> x + fst offset \<le> cx + 1) (offsets Moore))
          in if y = cy \<and> cx - 1 \<le> x \<and> x \<le> cx + 1 then n = 2 \<or> n = 3 else n = 3) \<longleftrightarrow>
         x = cx \<and> cy - 1 \<le> y \<and> y \<le> cy + 1"
proof -
  consider "y < cy - 1" | "y = cy - 1" | "y = cy" | "y = cy + 1" | "cy + 1 < y"
    by linarith
  then show ?thesis
  proof cases
    case 1
    then show ?thesis by (simp add: moore_count Let_def)
  next
    case 2
    consider "x < cx - 2" | "x = cx - 2" | "x = cx - 1" | "x = cx" | "x = cx + 1"
      | "x = cx + 2" | "cx + 2 < x"
      by linarith
    then show ?thesis
      using 2 by cases (simp_all add: moore_count Let_def)
  next
    case 3
    consider "x < cx - 2" | "x = cx - 2" | "x = cx - 1" | "x = cx" | "x = cx + 1"
      | "x = cx + 2" | "cx + 2 < x"
      by linarith
    then show ?thesis
      using 3 by cases (simp_all add: moore_count Let_def)
  next
    case 4
    consider "x < cx - 2" | "x = cx - 2" | "x = cx - 1" | "x = cx" | "x = cx + 1"
      | "x = cx + 2" | "cx + 2 < x"
      by linarith
    then show ?thesis
      using 4 by cases (simp_all add: moore_count Let_def)
  next
    case 5
    then show ?thesis by (simp add: moore_count Let_def)
  qed
qed


lemma vertical_count:
  fixes x y cx cy :: int
  shows "(let n = length (filter (\<lambda>offset. x + fst offset = cx \<and>
                     cy - 1 \<le> y + snd offset \<and> y + snd offset \<le> cy + 1) (offsets Moore))
          in if x = cx \<and> cy - 1 \<le> y \<and> y \<le> cy + 1 then n = 2 \<or> n = 3 else n = 3) \<longleftrightarrow>
         y = cy \<and> cx - 1 \<le> x \<and> x \<le> cx + 1"
proof -
  consider "x < cx - 1" | "x = cx - 1" | "x = cx" | "x = cx + 1" | "cx + 1 < x"
    by linarith
  then show ?thesis
  proof cases
    case 1
    then show ?thesis by (simp add: moore_count Let_def)
  next
    case 2
    consider "y < cy - 2" | "y = cy - 2" | "y = cy - 1" | "y = cy" | "y = cy + 1"
      | "y = cy + 2" | "cy + 2 < y"
      by linarith
    then show ?thesis
      using 2 by cases (simp_all add: moore_count Let_def)
  next
    case 3
    consider "y < cy - 2" | "y = cy - 2" | "y = cy - 1" | "y = cy" | "y = cy + 1"
      | "y = cy + 2" | "cy + 2 < y"
      by linarith
    then show ?thesis
      using 3 by cases (simp_all add: moore_count Let_def)
  next
    case 4
    consider "y < cy - 2" | "y = cy - 2" | "y = cy - 1" | "y = cy" | "y = cy + 1"
      | "y = cy + 2" | "cy + 2 < y"
      by linarith
    then show ?thesis
      using 4 by cases (simp_all add: moore_count Let_def)
  next
    case 5
    then show ?thesis by (simp add: moore_count Let_def)
  qed
qed

lemma update_of_cells:
  assumes h: "0 < h"
    and inside: "\<And>nx ny. c nx ny \<Longrightarrow> 0 \<le> nx \<and> nx < int w \<and> 0 \<le> ny \<and> ny < int h"
  shows "update \<lparr>ruleset = rs, neighborhood = nb,
                  grid = map (\<lambda>y. map (\<lambda>x. c (int x) (int y)) [0..<w]) [0..<h]\<rparr> =
         (None, \<lparr>ruleset = rs, neighborhood = nb,
                 grid = map (\<lambda>y. map (\<lambda>x.
                   if c (int x) (int y)
                   then ruleset_and rs (length (filter (\<lambda>offset.
                          c (int x + fst offset) (int y + snd offset)) (offsets nb))) 1 = 1
                   else ruleset_and rs (length (filter (\<lambda>offset.
                          c (int x + fst offset) (int y + snd offset)) (offsets nb))) 2 = 2)
                   [0..<w]) [0..<h]\<rparr>)"
proof -
  define g where "g = map (\<lambda>y. map (\<lambda>x. c (int x) (int y)) [0..<w]) [0..<h]"
  define a where "a = \<lparr>ruleset = rs, neighborhood = nb, grid = g\<rparr>"
  have len: "length g = h" and rows: "\<forall>row\<in>set g. length row = w"
    by (auto simp: g_def)
  from h len have ne: "g \<noteq> []" by auto
  then have "g ! 0 \<in> set g" by simp
  with rows ne have width: "grid_width g = w"
    by (simp add: grid_width_nth0)
  have cell: "g ! y ! x = c (int x) (int y)" if "x < w" "y < h" for x y
    using that by (simp add: g_def)
  have alive: "alive_at g nx ny = c nx ny" for nx ny
  proof (cases "0 \<le> nx \<and> nx < int w \<and> 0 \<le> ny \<and> ny < int h")
    case True
    then have "nat nx < w" and "nat ny < h" by linarith+
    with True show ?thesis
      using cell [of "nat nx" "nat ny"] alive_at_rectangular [OF len rows h, of nx ny]
      by simp
  next
    case False
    with inside [of nx ny] have "\<not> c nx ny" by blast
    with False show ?thesis
      using alive_at_rectangular [OF len rows h, of nx ny] by blast
  qed
  have count: "live_neighbors a x y =
                 length (filter (\<lambda>offset. c (x + fst offset) (y + snd offset)) (offsets nb))"
    for x y
    by (simp add: live_neighbors_def a_def alive)
  have next_st: "next_state a x y =
          (if c (int x) (int y)
           then ruleset_and rs (length (filter (\<lambda>offset.
                  c (int x + fst offset) (int y + snd offset)) (offsets nb))) 1 = 1
           else ruleset_and rs (length (filter (\<lambda>offset.
                  c (int x + fst offset) (int y + snd offset)) (offsets nb))) 2 = 2)"
    if "x < w" "y < h" for x y
  proof -
    have "length (grid a ! y) = w" "grid a ! y ! x = c (int x) (int y)"
      using that by (simp_all add: a_def g_def)
    then show ?thesis
      using that(1) by (simp add: next_state_def count) (simp add: a_def)
  qed
  have "map (\<lambda>y. map (\<lambda>x. next_state a x y) [0..<w]) [0..<h] =
        map (\<lambda>y. map (\<lambda>x.
                   if c (int x) (int y)
                   then ruleset_and rs (length (filter (\<lambda>offset.
                          c (int x + fst offset) (int y + snd offset)) (offsets nb))) 1 = 1
                   else ruleset_and rs (length (filter (\<lambda>offset.
                          c (int x + fst offset) (int y + snd offset)) (offsets nb))) 2 = 2)
                   [0..<w]) [0..<h]"
    by (intro map_cong refl) (simp add: next_st)
  then have "update a = (None, a\<lparr>grid := map (\<lambda>y. map (\<lambda>x.
                   if c (int x) (int y)
                   then ruleset_and rs (length (filter (\<lambda>offset.
                          c (int x + fst offset) (int y + snd offset)) (offsets nb))) 1 = 1
                   else ruleset_and rs (length (filter (\<lambda>offset.
                          c (int x + fst offset) (int y + snd offset)) (offsets nb))) 2 = 2)
                   [0..<w]) [0..<h]\<rparr>)"
    using width len by (simp add: update_closed a_def)
  then show ?thesis
    by (simp add: a_def g_def)
qed

lemma life_flags:
  assumes "length rs = 9" and "\<forall>n<9. bit (rs ! n) 0 \<longleftrightarrow> n = 2 \<or> n = 3"
    and "\<forall>n<9. bit (rs ! n) 1 \<longleftrightarrow> n = 3"
  shows "ruleset_and rs (length (filter P (offsets Moore))) 1 = 1 \<longleftrightarrow>
           length (filter P (offsets Moore)) = 2 \<or> length (filter P (offsets Moore)) = 3"
    and "ruleset_and rs (length (filter P (offsets Moore))) 2 = 2 \<longleftrightarrow>
           length (filter P (offsets Moore)) = 3"
proof -
  have "length (filter P (offsets Moore)) \<le> length (offsets Moore)"
    by (rule length_filter_le)
  then have n: "length (filter P (offsets Moore)) < 9"
    by (simp add: length_offsets)
  show "ruleset_and rs (length (filter P (offsets Moore))) 1 = 1 \<longleftrightarrow>
           length (filter P (offsets Moore)) = 2 \<or> length (filter P (offsets Moore)) = 3"
    using n assms(1,2) by (simp add: ruleset_and_1)
  show "ruleset_and rs (length (filter P (offsets Moore))) 2 = 2 \<longleftrightarrow>
           length (filter P (offsets Moore)) = 3"
    using n assms(1,3) by (simp add: ruleset_and_2)
qed


text \<open>
  Claim C9. Let the ruleset have 9 entries whose SURVIVE flag (bit position 0) is set
  exactly at the counts 2 and 3 and whose BIRTH flag (bit position 1) is set exactly at
  the count 3 (rule B3/S23), with the Moore neighbourhood. Let the grid have width \<open>w\<close>
  and height \<open>h\<close> and hold exactly the horizontal line of the three cells
  \<open>(cx - 1, cy)\<close>, \<open>(cx, cy)\<close>, \<open>(cx + 1, cy)\<close>, with at least one empty column left and
  right of the line and at least one empty row above and below it. Then one step gives
  exactly the vertical line of the three cells \<open>(cx, cy - 1)\<close>, \<open>(cx, cy)\<close>,
  \<open>(cx, cy + 1)\<close>, and a second step gives back the original grid. Neither step throws.
\<close>

theorem blinker_oscillates:
  assumes "length rs = 9"
    and "\<forall>n<9. bit (rs ! n) 0 \<longleftrightarrow> n = 2 \<or> n = 3"
    and "\<forall>n<9. bit (rs ! n) 1 \<longleftrightarrow> n = 3"
    and "2 \<le> cx" and "cx + 2 < w" and "1 \<le> cy" and "cy + 1 < h"
  shows "update \<lparr>ruleset = rs, neighborhood = Moore,
            grid = map (\<lambda>y. map (\<lambda>x. y = cy \<and> cx - 1 \<le> x \<and> x \<le> cx + 1) [0..<w]) [0..<h]\<rparr> =
           (None, \<lparr>ruleset = rs, neighborhood = Moore,
            grid = map (\<lambda>y. map (\<lambda>x. x = cx \<and> cy - 1 \<le> y \<and> y \<le> cy + 1) [0..<w]) [0..<h]\<rparr>) \<and>
         update \<lparr>ruleset = rs, neighborhood = Moore,
            grid = map (\<lambda>y. map (\<lambda>x. x = cx \<and> cy - 1 \<le> y \<and> y \<le> cy + 1) [0..<w]) [0..<h]\<rparr> =
           (None, \<lparr>ruleset = rs, neighborhood = Moore,
            grid = map (\<lambda>y. map (\<lambda>x. y = cy \<and> cx - 1 \<le> x \<and> x \<le> cx + 1) [0..<w]) [0..<h]\<rparr>)"
proof -
  define ch where "ch = (\<lambda>nx ny. ny = int cy \<and> int cx - 1 \<le> nx \<and> nx \<le> int cx + 1)"
  define cv where "cv = (\<lambda>nx ny. nx = int cx \<and> int cy - 1 \<le> ny \<and> ny \<le> int cy + 1)"
  have nat_h: "(y = cy \<and> cx - 1 \<le> x \<and> x \<le> cx + 1) = ch (int x) (int y)" for x y
    unfolding ch_def using assms(4) by auto
  have nat_v: "(x = cx \<and> cy - 1 \<le> y \<and> y \<le> cy + 1) = cv (int x) (int y)" for x y
    unfolding cv_def using assms(6) by auto
  have inside_h: "0 \<le> nx \<and> nx < int w \<and> 0 \<le> ny \<and> ny < int h" if "ch nx ny" for nx ny
    using that assms(4-7) unfolding ch_def by linarith
  have inside_v: "0 \<le> nx \<and> nx < int w \<and> 0 \<le> ny \<and> ny < int h" if "cv nx ny" for nx ny
    using that assms(4-7) unfolding cv_def by linarith
  have h: "0 < h" using assms(7) by simp
  have rule_h: "(if ch x y
           then ruleset_and rs (length (filter (\<lambda>offset.
                  ch (x + fst offset) (y + snd offset)) (offsets Moore))) 1 = 1
           else ruleset_and rs (length (filter (\<lambda>offset.
                  ch (x + fst offset) (y + snd offset)) (offsets Moore))) 2 = 2) = cv x y"
    for x y
    unfolding life_flags [OF assms(1-3)] ch_def cv_def
    by (rule horizontal_count [unfolded Let_def])
  have rule_v: "(if cv x y
           then ruleset_and rs (length (filter (\<lambda>offset.
                  cv (x + fst offset) (y + snd offset)) (offsets Moore))) 1 = 1
           else ruleset_and rs (length (filter (\<lambda>offset.
                  cv (x + fst offset) (y + snd offset)) (offsets Moore))) 2 = 2) = ch x y"
    for x y
    unfolding life_flags [OF assms(1-3)] ch_def cv_def
    by (rule vertical_count [unfolded Let_def])
  have step_h: "update \<lparr>ruleset = rs, neighborhood = Moore,
            grid = map (\<lambda>y. map (\<lambda>x. ch (int x) (int y)) [0..<w]) [0..<h]\<rparr> =
           (None, \<lparr>ruleset = rs, neighborhood = Moore,
            grid = map (\<lambda>y. map (\<lambda>x. cv (int x) (int y)) [0..<w]) [0..<h]\<rparr>)"
    using update_of_cells [of h ch w rs Moore, OF h inside_h] by (simp only: rule_h)
  have step_v: "update \<lparr>ruleset = rs, neighborhood = Moore,
            grid = map (\<lambda>y. map (\<lambda>x. cv (int x) (int y)) [0..<w]) [0..<h]\<rparr> =
           (None, \<lparr>ruleset = rs, neighborhood = Moore,
            grid = map (\<lambda>y. map (\<lambda>x. ch (int x) (int y)) [0..<w]) [0..<h]\<rparr>)"
    using update_of_cells [of h cv w rs Moore, OF h inside_v] by (simp only: rule_v)
  show ?thesis
    using step_h step_v by (simp only: nat_h nat_v)
qed

theorem blinker_oscillates_witness:
  "update \<lparr>ruleset = [0, 0, 1, 3, 0, 0, 0, 0, 0], neighborhood = Moore,
      grid = [[False, False, False, False, False],
              [False, True, True, True, False],
              [False, False, False, False, False]]\<rparr> =
     (None, \<lparr>ruleset = [0, 0, 1, 3, 0, 0, 0, 0, 0], neighborhood = Moore,
      grid = [[False, False, True, False, False],
              [False, False, True, False, False],
              [False, False, True, False, False]]\<rparr>) \<and>
   update \<lparr>ruleset = [0, 0, 1, 3, 0, 0, 0, 0, 0], neighborhood = Moore,
      grid = [[False, False, True, False, False],
              [False, False, True, False, False],
              [False, False, True, False, False]]\<rparr> =
     (None, \<lparr>ruleset = [0, 0, 1, 3, 0, 0, 0, 0, 0], neighborhood = Moore,
      grid = [[False, False, False, False, False],
              [False, True, True, True, False],
              [False, False, False, False, False]]\<rparr>)"
proof -
  let ?rs = "[0, 0, 1, 3, 0, 0, 0, 0, 0] :: int list"
  have len: "length ?rs = 9" by simp
  have survive: "\<forall>n<9. bit (?rs ! n) 0 \<longleftrightarrow> n = 2 \<or> n = 3"
    by (simp add: eval_nat_numeral All_less_Suc bit_Suc)
  have birth: "\<forall>n<9. bit (?rs ! n) 1 \<longleftrightarrow> n = 3"
    by (simp add: eval_nat_numeral All_less_Suc bit_Suc)
  have m: "(2::nat) \<le> 2" "(2::nat) + 2 < 5" "(1::nat) \<le> 1" "(1::nat) + 1 < 3"
    by simp_all
  have horizontal: "map (\<lambda>y. map (\<lambda>x. y = 1 \<and> 2 - 1 \<le> x \<and> x \<le> 2 + 1) [0..<5]) [0..<3] =
      [[False, False, False, False, False],
       [False, True, True, True, False],
       [False, False, False, False, False]]"
    by (simp add: eval_nat_numeral)
  have vertical: "map (\<lambda>y. map (\<lambda>x. x = 2 \<and> 1 - 1 \<le> y \<and> y \<le> 1 + 1) [0..<5]) [0..<3] =
      [[False, False, True, False, False],
       [False, False, True, False, False],
       [False, False, True, False, False]]"
    by (simp add: eval_nat_numeral)
  show ?thesis
    using blinker_oscillates [OF len survive birth m]
    by (simp only: horizontal vertical)
qed

end
